theory Spec2Isabelle
  imports Main
begin

section \<open>The time-capsule playlist script\<close>

text \<open>
  A shallow embedding of \<^verbatim>\<open>spotify-time-capsule-playlist-creator.py\<close>. The script
  reads a table of tracks with play counts, draws ten rows from each of three play-count
  strata and overwrites the tracks of the playlist "My time capsule" with them, creating
  the playlist first when the user has none of that name.

  Exceptions are values of the type \<open>error\<close>; a function that can raise returns
  \<open>error + 'a\<close>. The remote service is an explicit state that every function calling it
  takes and returns, so the state at the moment of a failure stays visible. What the
  script prints is not modelled.
\<close>

subsection \<open>Exceptions\<close>

datatype error =
    NameError string          \<comment> \<open>a name that is bound nowhere was evaluated\<close>
  | FileNotFoundError         \<comment> \<open>raised by the script itself when the token file is missing\<close>
  | KeyError string           \<comment> \<open>a key missing from the token file's object\<close>
  | ValueError                \<comment> \<open>pandas: a sample larger than the frame, without replacement\<close>
  | SpotifyOauthError         \<comment> \<open>the token endpoint refused the refresh\<close>
  | SpotifyException          \<comment> \<open>the web API refused a call\<close>

subsection \<open>The track table\<close>

record track =
  uri :: string
  plays :: int

text \<open>
  A data frame is a list of rows, each with its index label. \<^verbatim>\<open>pd.read_csv\<close> labels the
  rows \<open>0, 1, 2, ...\<close>; a boolean mask keeps the rows that satisfy it, with their labels.
  The label tells two rows with the same content apart.
\<close>

type_synonym dataframe = "(nat \<times> track) list"

definition read_csv :: "track list \<Rightarrow> dataframe" where
  "read_csv rows = enumerate 0 rows"

definition df_mask :: "(track \<Rightarrow> bool) \<Rightarrow> dataframe \<Rightarrow> dataframe" where
  "df_mask P df = filter (\<lambda>(i, r). P r) df"

definition column_uri :: "dataframe \<Rightarrow> string list" where
  "column_uri df = map (\<lambda>(i, r). uri r) df"

subsection \<open>Sampling without replacement\<close>

text \<open>
  \<^verbatim>\<open>DataFrame.sample(n=10)\<close> draws with the process-wide random generator, which the
  script never seeds. The generator is an explicit stream of draws \<open>g 0, g 1, ...\<close>. One
  draw picks a position among the rows not yet taken and removes that row, so every
  stream gives a sample without replacement, and every such sample comes from some stream
  (\<open>draw_complete\<close> below). pandas refuses a sample larger than the frame with a
  \<^verbatim>\<open>ValueError\<close>.
\<close>

type_synonym rng = "nat \<Rightarrow> nat"

fun draw :: "nat \<Rightarrow> rng \<Rightarrow> 'a list \<Rightarrow> 'a list" where
  "draw 0 g xs = []"
| "draw (Suc n) g [] = []"
| "draw (Suc n) g (x # xs) =
     (let i = g 0 mod length (x # xs)
      in (x # xs) ! i # draw n (\<lambda>k. g (Suc k)) (take i (x # xs) @ drop (Suc i) (x # xs)))"

definition sample :: "nat \<Rightarrow> dataframe \<Rightarrow> rng \<Rightarrow> error + dataframe \<times> rng" where
  "sample n df g =
     (if length df < n then Inl ValueError
      else Inr (draw n g df, \<lambda>k. g (n + k)))"

subsection \<open>The track selector\<close>

definition filter_tracks_by_play_count :: "track list \<Rightarrow> rng \<Rightarrow> error + string list \<times> rng" where
  "filter_tracks_by_play_count csv_file g =
     (let df = read_csv csv_file;
          tracks_to_add = []
      in (case sample 10 (df_mask (\<lambda>r. plays r \<ge> 10) df) g of
            Inl e \<Rightarrow> Inl e
          | Inr (high, g1) \<Rightarrow>
        (let tracks_to_add = tracks_to_add @ column_uri high
         in (case sample 10 (df_mask (\<lambda>r. plays r \<ge> 5 \<and> plays r < 10) df) g1 of
               Inl e \<Rightarrow> Inl e
             | Inr (medium, g2) \<Rightarrow>
           (let tracks_to_add = tracks_to_add @ column_uri medium
            in (case sample 10 (df_mask (\<lambda>r. plays r < 5) df) g2 of
                  Inl e \<Rightarrow> Inl e
                | Inr (low, g3) \<Rightarrow>
              (let tracks_to_add = tracks_to_add @ column_uri low
               in Inr (tracks_to_add, g3))))))))"

subsection \<open>The remote service\<close>

text \<open>
  The web API is outside the repository. Its state is modelled from the operations the
  script calls: the authenticated user's playlists in listing order, the identifiers the
  service hands to new playlists, the token endpoint, and a log of every request
  received. A request that reaches the service succeeds, except one that names a
  playlist the service does not have. A new playlist goes to the front of the listing.

  The client library stands between the script and the service. Before it sends a
  request about a playlist it checks the playlist identifier and every item, raises
  \<^verbatim>\<open>SpotifyException\<close> without sending anything when it does not accept one, and sends
  the identifier and the items in the form it has brought them to. What it accepts has
  changed between releases of the library and the repository names no release, so the
  two functions of the library, \<^verbatim>\<open>_get_id\<close> and \<^verbatim>\<open>_get_uri\<close>, are fields of the
  record: \<open>lib_get_id srv type ident\<close> and \<open>lib_get_uri srv type ident\<close>.
\<close>

record playlist =
  pl_id :: string
  pl_name :: string
  pl_description :: string
  pl_public :: bool
  pl_owner :: string
  pl_tracks :: "string list"

datatype page = Page (items: "playlist list") (next_page: "page option")

datatype api_call =
    Me
  | CurrentUserPlaylists
  | Next
  | UserPlaylistCreate string string bool string
  | PlaylistReplaceItems string "string list"
  | PlaylistAddItems string "string list"

datatype request =
    TokenRequest string string string   \<comment> \<open>client id, client secret, refresh token\<close>
  | ApiRequest string api_call          \<comment> \<open>bearer token, call\<close>

record service =
  svc_user :: string
  svc_playlists :: "playlist list"
  svc_ids :: "nat \<Rightarrow> string"
  svc_created :: nat
  svc_tokens :: "string \<Rightarrow> string \<Rightarrow> string \<Rightarrow> string option"
  svc_calls :: "request list"
  lib_get_id :: "string \<Rightarrow> string \<Rightarrow> error + string"
  lib_get_uri :: "string \<Rightarrow> string \<Rightarrow> error + string"

text \<open>The client handle \<^verbatim>\<open>spotipy.Spotify(auth=...)\<close> carries the bearer token.\<close>

record spotify =
  auth :: string

definition api :: "spotify \<Rightarrow> api_call \<Rightarrow> service \<Rightarrow> service" where
  "api sp c srv = srv\<lparr>svc_calls := svc_calls srv @ [ApiRequest (auth sp) c]\<rparr>"

definition sp_me :: "spotify \<Rightarrow> service \<Rightarrow> string \<times> service" where
  "sp_me sp srv = (svc_user srv, api sp Me srv)"

text \<open>
  The listing comes in pages of at most 50 playlists, the default limit of
  \<^verbatim>\<open>current_user_playlists\<close>; a page links to the next one while playlists remain.
\<close>

function pages_from :: "playlist list \<Rightarrow> page" where
  "pages_from ps =
     (if length ps \<le> 50 then Page ps None
      else Page (take 50 ps) (Some (pages_from (drop 50 ps))))"
  by pat_completeness auto
termination
  by (relation "measure length") auto

declare pages_from.simps [simp del]

definition sp_current_user_playlists :: "spotify \<Rightarrow> service \<Rightarrow> page \<times> service" where
  "sp_current_user_playlists sp srv =
     (pages_from (svc_playlists srv), api sp CurrentUserPlaylists srv)"

definition sp_user_playlist_create ::
    "spotify \<Rightarrow> string \<Rightarrow> string \<Rightarrow> bool \<Rightarrow> string \<Rightarrow> service \<Rightarrow> playlist \<times> service" where
  "sp_user_playlist_create sp user name public description srv =
     (let p = \<lparr>pl_id = svc_ids srv (svc_created srv), pl_name = name,
                pl_description = description, pl_public = public, pl_owner = user,
                pl_tracks = []\<rparr>
      in (p, (api sp (UserPlaylistCreate user name public description) srv)
               \<lparr>svc_playlists := p # svc_playlists srv,
                svc_created := Suc (svc_created srv)\<rparr>))"

fun update_playlist ::
    "string \<Rightarrow> (playlist \<Rightarrow> playlist) \<Rightarrow> playlist list \<Rightarrow> playlist list option" where
  "update_playlist pid f [] = None"
| "update_playlist pid f (p # ps) =
     (if pl_id p = pid then Some (f p # ps)
      else map_option ((#) p) (update_playlist pid f ps))"

text \<open>
  \<^verbatim>\<open>playlist_replace_items\<close> and \<^verbatim>\<open>playlist_add_items\<close> of the library: the playlist
  identifier first, then the items from left to right, then the request.
\<close>

fun get_uris :: "service \<Rightarrow> string list \<Rightarrow> error + string list" where
  "get_uris srv [] = Inr []"
| "get_uris srv (tid # tids) =
     (case lib_get_uri srv ''track'' tid of
        Inl e \<Rightarrow> Inl e
      | Inr u \<Rightarrow> (case get_uris srv tids of Inl e \<Rightarrow> Inl e | Inr us \<Rightarrow> Inr (u # us)))"

definition sp_playlist_replace_items ::
    "spotify \<Rightarrow> string \<Rightarrow> string list \<Rightarrow> service \<Rightarrow> (error + unit) \<times> service" where
  "sp_playlist_replace_items sp playlist_id tids srv =
     (case lib_get_id srv ''playlist'' playlist_id of
        Inl e \<Rightarrow> (Inl e, srv)
      | Inr plid \<Rightarrow>
     (case get_uris srv tids of
        Inl e \<Rightarrow> (Inl e, srv)
      | Inr ftracks \<Rightarrow>
     (let srv1 = api sp (PlaylistReplaceItems plid ftracks) srv
      in (case update_playlist plid (\<lambda>p. p\<lparr>pl_tracks := ftracks\<rparr>) (svc_playlists srv1) of
            None \<Rightarrow> (Inl SpotifyException, srv1)
          | Some ps \<Rightarrow> (Inr (), srv1\<lparr>svc_playlists := ps\<rparr>)))))"

definition sp_playlist_add_items ::
    "spotify \<Rightarrow> string \<Rightarrow> string list \<Rightarrow> service \<Rightarrow> (error + unit) \<times> service" where
  "sp_playlist_add_items sp playlist_id tids srv =
     (case lib_get_id srv ''playlist'' playlist_id of
        Inl e \<Rightarrow> (Inl e, srv)
      | Inr plid \<Rightarrow>
     (case get_uris srv tids of
        Inl e \<Rightarrow> (Inl e, srv)
      | Inr ftracks \<Rightarrow>
     (let srv1 = api sp (PlaylistAddItems plid ftracks) srv
      in (case update_playlist plid (\<lambda>p. p\<lparr>pl_tracks := pl_tracks p @ ftracks\<rparr>)
                 (svc_playlists srv1) of
            None \<Rightarrow> (Inl SpotifyException, srv1)
          | Some ps \<Rightarrow> (Inr (), srv1\<lparr>svc_playlists := ps\<rparr>)))))"

text \<open>\<^verbatim>\<open>SpotifyOAuth(...).refresh_access_token(refresh_token)\<close>: one request to the token endpoint.\<close>

record oauth =
  client_id :: string
  client_secret :: string
  redirect_uri :: "string option"
  scope :: string

definition refresh_access_token :: "oauth \<Rightarrow> string \<Rightarrow> service \<Rightarrow> (error + string) \<times> service" where
  "refresh_access_token sp_oauth refresh_token srv =
     (let srv1 = srv\<lparr>svc_calls := svc_calls srv
                   @ [TokenRequest (client_id sp_oauth) (client_secret sp_oauth) refresh_token]\<rparr>
      in (case svc_tokens srv (client_id sp_oauth) (client_secret sp_oauth) refresh_token of
            None \<Rightarrow> (Inl SpotifyOauthError, srv1)
          | Some access_token \<Rightarrow> (Inr access_token, srv1)))"

subsection \<open>Credentials\<close>

text \<open>
  The environment maps variable names to values. The file system maps a path to the JSON
  object stored there, for the one file the script reads as JSON. A Python string or
  \<^verbatim>\<open>None\<close> is true in a condition when it is a non-empty string.
\<close>

type_synonym environ = "string \<rightharpoonup> string"
type_synonym files = "string \<rightharpoonup> (string \<rightharpoonup> string)"

definition TOKEN_PATH :: string where
  "TOKEN_PATH = ''.spotify_tokens.json''"

definition truthy :: "string option \<Rightarrow> bool" where
  "truthy v = (case v of None \<Rightarrow> False | Some s \<Rightarrow> s \<noteq> [])"

text \<open>
  A name that a function never assigns is looked up among the module's globals. The
  string-valued ones are listed; the others are the imported modules and the functions
  defined below, none of them called \<^verbatim>\<open>redirect_uri\<close>.
\<close>

definition module_globals :: "string \<rightharpoonup> string" where
  "module_globals = [''TOKEN_PATH'' \<mapsto> TOKEN_PATH]"

definition load_global :: "string \<Rightarrow> error + string" where
  "load_global n = (case module_globals n of None \<Rightarrow> Inl (NameError n) | Some v \<Rightarrow> Inr v)"

definition getitem :: "(string \<rightharpoonup> string) \<Rightarrow> string \<Rightarrow> error + string" where
  "getitem d k = (case d k of None \<Rightarrow> Inl (KeyError k) | Some v \<Rightarrow> Inr v)"

definition str :: "string option \<Rightarrow> string" where
  "str v = (case v of None \<Rightarrow> [] | Some s \<Rightarrow> s)"

definition get_spotify_client :: "environ \<Rightarrow> files \<Rightarrow> service \<Rightarrow> (error + spotify) \<times> service" where
  "get_spotify_client env fs srv =
     (let access_token = env ''SPOTIFY_ACCESS_TOKEN''
      in if truthy access_token then (Inr \<lparr>auth = str access_token\<rparr>, srv)
      else
     (let client_id = env ''SPOTIFY_CLIENT_ID'';
          client_secret = env ''SPOTIFY_CLIENT_SECRET'';
          refresh_token = env ''SPOTIFY_REFRESH_TOKEN''
      in (case (if truthy client_id \<and> truthy client_secret \<and> truthy refresh_token
                then map_sum id (\<lambda>v. v \<noteq> []) (load_global ''redirect_uri'')
                else Inr False) of
            Inl e \<Rightarrow> (Inl e, srv)
          | Inr cond \<Rightarrow>
        if cond then
          (let sp_oauth = \<lparr>client_id = str client_id, client_secret = str client_secret,
                           redirect_uri = None,
                           scope = ''playlist-modify-public playlist-modify-private''\<rparr>
           in (case refresh_access_token sp_oauth (str refresh_token) srv of
                 (Inl e, srv1) \<Rightarrow> (Inl e, srv1)
               | (Inr token, srv1) \<Rightarrow> (Inr \<lparr>auth = token\<rparr>, srv1)))
        else
          (case fs TOKEN_PATH of
             None \<Rightarrow> (Inl FileNotFoundError, srv)
           | Some data \<Rightarrow>
          (case getitem data ''client_id'' of Inl e \<Rightarrow> (Inl e, srv) | Inr cid \<Rightarrow>
          (case getitem data ''client_secret'' of Inl e \<Rightarrow> (Inl e, srv) | Inr secret \<Rightarrow>
          (case getitem data ''redirect_uri'' of Inl e \<Rightarrow> (Inl e, srv) | Inr redirect \<Rightarrow>
          (let sp_oauth = \<lparr>client_id = cid, client_secret = secret,
                           redirect_uri = Some redirect,
                           scope = ''playlist-modify-public playlist-modify-private''\<rparr>
           in (case getitem data ''refresh_token'' of Inl e \<Rightarrow> (Inl e, srv) | Inr refresh \<Rightarrow>
              (case refresh_access_token sp_oauth refresh srv of
                 (Inl e, srv1) \<Rightarrow> (Inl e, srv1)
               | (Inr token, srv1) \<Rightarrow> (Inr \<lparr>auth = token\<rparr>, srv1)))))))))))"

subsection \<open>Playlist operations\<close>

definition create_playlist ::
    "spotify \<Rightarrow> string \<Rightarrow> string \<Rightarrow> bool \<Rightarrow> service \<Rightarrow> string \<times> service" where
  "create_playlist sp name description public srv =
     (let (user_id, srv1) = sp_me sp srv;
          (playlist, srv2) = sp_user_playlist_create sp user_id name public description srv1
      in (pl_id playlist, srv2))"

definition add_tracks ::
    "spotify \<Rightarrow> string \<Rightarrow> string list \<Rightarrow> service \<Rightarrow> (error + unit) \<times> service" where
  "add_tracks sp playlist_id track_uris srv =
     (if track_uris = [] then (Inr (), srv)
      else sp_playlist_add_items sp playlist_id track_uris srv)"

text \<open>
  \<^verbatim>\<open>playlist_exists\<close>: the inner \<^verbatim>\<open>for\<close> loop returns at the first playlist of the page
  with the name; the outer \<^verbatim>\<open>while\<close> loop asks for the next page while the current one
  links to one.
\<close>

fun find_on_page :: "playlist list \<Rightarrow> string \<Rightarrow> string option" where
  "find_on_page [] name = None"
| "find_on_page (playlist # rest) name =
     (if pl_name playlist = name then Some (pl_id playlist) else find_on_page rest name)"

fun playlist_exists_from :: "spotify \<Rightarrow> string \<Rightarrow> page \<Rightarrow> service \<Rightarrow> string option \<times> service" where
  "playlist_exists_from sp name (Page its nxt) srv =
     (case find_on_page its name of
        Some i \<Rightarrow> (Some i, srv)
      | None \<Rightarrow>
          (case nxt of
             Some pg \<Rightarrow> playlist_exists_from sp name pg (api sp Next srv)
           | None \<Rightarrow> (None, srv)))"

definition playlist_exists :: "spotify \<Rightarrow> string \<Rightarrow> service \<Rightarrow> string option \<times> service" where
  "playlist_exists sp name srv =
     (let (playlists, srv1) = sp_current_user_playlists sp srv
      in playlist_exists_from sp name playlists srv1)"

definition replace_tracks ::
    "spotify \<Rightarrow> string \<Rightarrow> string list \<Rightarrow> service \<Rightarrow> (error + unit) \<times> service" where
  "replace_tracks sp playlist_id track_uris srv =
     sp_playlist_replace_items sp playlist_id track_uris srv"

subsection \<open>The run\<close>

text \<open>
  \<^verbatim>\<open>user_playlist_create(user_id, playlist_name)\<close> leaves the visibility and the
  description at the library's defaults, public and empty.
\<close>

definition create_or_update_playlist ::
    "spotify \<Rightarrow> string \<Rightarrow> string \<Rightarrow> track list \<Rightarrow> rng \<Rightarrow> service \<Rightarrow> (error + unit) \<times> service" where
  "create_or_update_playlist sp user_id playlist_name csv_file g srv =
     (let (found, srv1) = playlist_exists sp playlist_name srv;
          (playlist_id, srv2) =
             (if truthy found then (str found, srv1)
              else (let (playlist, srv') = sp_user_playlist_create sp user_id playlist_name True [] srv1
                    in (pl_id playlist, srv')))
      in (case filter_tracks_by_play_count csv_file g of
            Inl e \<Rightarrow> (Inl e, srv2)
          | Inr (tracks_to_add, g') \<Rightarrow> replace_tracks sp playlist_id tracks_to_add srv2))"

text \<open>
  In \<^verbatim>\<open>main\<close> the name and the description are local constants. The test
  \<^verbatim>\<open>if not playlist_id\<close> takes both \<^verbatim>\<open>None\<close> and an empty identifier as "not found".
  The selector runs after the lookup and the creation, and before the replacement.
\<close>

definition playlist_name :: string where
  "playlist_name = ''My time capsule''"

definition description :: string where
  "description = ''Abbie's time capsule playlist that automatically refreshes with a random selection of her old tracks every day.''"

definition main :: "environ \<Rightarrow> files \<Rightarrow> track list \<Rightarrow> rng \<Rightarrow> service \<Rightarrow> (error + unit) \<times> service" where
  "main env fs csv_file g srv =
     (case get_spotify_client env fs srv of
        (Inl e, srv0) \<Rightarrow> (Inl e, srv0)
      | (Inr sp, srv0) \<Rightarrow>
     (let (found, srv1) = playlist_exists sp playlist_name srv0;
          (playlist_id, srv2) =
             (if truthy found then (str found, srv1)
              else create_playlist sp playlist_name description False srv1)
      in (case filter_tracks_by_play_count csv_file g of
            Inl e \<Rightarrow> (Inl e, srv2)
          | Inr (track_uris, g') \<Rightarrow> replace_tracks sp playlist_id track_uris srv2)))"

subsection \<open>Observations\<close>

text \<open>
  What the properties below observe: the playlists a chain of pages lists, the tracks of
  the playlist with a given identifier, and whether a request changes a track list.
\<close>

fun all_items :: "page \<Rightarrow> playlist list" where
  "all_items (Page its nxt) = its @ (case nxt of None \<Rightarrow> [] | Some pg \<Rightarrow> all_items pg)"

fun tracks_of :: "string \<Rightarrow> playlist list \<Rightarrow> string list option" where
  "tracks_of pid [] = None"
| "tracks_of pid (p # ps) = (if pl_id p = pid then Some (pl_tracks p) else tracks_of pid ps)"

fun track_update :: "request \<Rightarrow> bool" where
  "track_update (ApiRequest token (PlaylistReplaceItems pid uris)) = True"
| "track_update (ApiRequest token (PlaylistAddItems pid uris)) = True"
| "track_update r = False"

subsection \<open>Example inputs\<close>

text \<open>A table with ten rows in each stratum, and one with only eight rows played ten times or more.\<close>

definition example_rows :: "track list" where
  "example_rows =
     replicate 10 \<lparr>uri = ''spotify:track:high'', plays = 12\<rparr>
     @ replicate 10 \<lparr>uri = ''spotify:track:medium'', plays = 7\<rparr>
     @ replicate 10 \<lparr>uri = ''spotify:track:low'', plays = 1\<rparr>"

definition short_rows :: "track list" where
  "short_rows =
     replicate 8 \<lparr>uri = ''spotify:track:high'', plays = 12\<rparr>
     @ replicate 10 \<lparr>uri = ''spotify:track:medium'', plays = 7\<rparr>
     @ replicate 10 \<lparr>uri = ''spotify:track:low'', plays = 1\<rparr>"

text \<open>
  A library for the examples, after the releases that check identifiers. An identifier
  is a Spotify URI (\<^verbatim>\<open>spotify:playlist:...\<close>), an address on \<^verbatim>\<open>open.spotify.com\<close>, or a
  bare identifier of letters and digits; a pattern still matches when one line feed
  follows. \<open>get_id\<close> gives the bare identifier and refuses one of another type;
  \<open>get_uri\<close> leaves a URI as it is and makes one of anything else \<open>get_id\<close> accepts.
\<close>

definition base62 :: "string \<Rightarrow> bool" where
  "base62 s = (s \<noteq> [] \<and>
     list_all (\<lambda>c. c \<in> set ''0123456789ABCDEFGHIJKLMNOPQRSTUVWXYZabcdefghijklmnopqrstuvwxyz'') s)"

definition chomp :: "string \<Rightarrow> string" where
  "chomp s = (if s \<noteq> [] \<and> last s = CHR 0x0A then butlast s else s)"

fun split_on :: "char \<Rightarrow> string \<Rightarrow> string list" where
  "split_on c [] = [[]]"
| "split_on c (x # xs) =
     (if x = c then [] # split_on c xs
      else (case split_on c xs of [] \<Rightarrow> [[x]] | w # ws \<Rightarrow> (x # w) # ws))"

datatype uri_groups = Typed string string | UserPlaylist

definition match_uri :: "string \<Rightarrow> uri_groups option" where
  "match_uri s =
     (case split_on (CHR '':'') (chomp s) of
        [a, t, i] \<Rightarrow>
          if a = ''spotify''
             \<and> t \<in> set [''track'', ''artist'', ''album'', ''playlist'', ''show'', ''episode'',
                          ''audiobook'']
             \<and> base62 i
          then Some (Typed t i) else None
      | [a, u, n, p, i] \<Rightarrow>
          if a = ''spotify'' \<and> u = ''user'' \<and> base62 n \<and> p = ''playlist'' \<and> base62 i
          then Some UserPlaylist else None
      | _ \<Rightarrow> None)"

definition match_url :: "string \<Rightarrow> (string \<times> string) option" where
  "match_url s =
     (let s0 = chomp s;
          s1 = (if take 8 s0 = ''https://'' then drop 8 s0
                else if take 7 s0 = ''http://'' then drop 7 s0 else s0);
          rest = drop 17 s1;
          path = takeWhile (\<lambda>c. c \<noteq> CHR ''?'') rest;
          query = dropWhile (\<lambda>c. c \<noteq> CHR ''?'') rest
      in if 17 \<le> length s1 \<and> take 4 s1 = ''open'' \<and> s1 ! 4 \<noteq> CHR 0x0A
            \<and> take 7 (drop 5 s1) = ''spotify'' \<and> s1 ! 12 \<noteq> CHR 0x0A
            \<and> take 4 (drop 13 s1) = ''com/'' \<and> CHR 0x0A \<notin> set query
         then (case split_on (CHR ''/'') path of
                 [t, i] \<Rightarrow>
                   if t \<in> set [''track'', ''artist'', ''album'', ''playlist'', ''show'', ''episode'',
                                ''user'', ''audiobook'']
                      \<and> base62 i
                   then Some (t, i) else None
               | _ \<Rightarrow> None)
         else None)"

definition get_id :: "string \<Rightarrow> string \<Rightarrow> error + string" where
  "get_id type ident =
     (case match_uri ident of
        Some (Typed t i) \<Rightarrow> if t \<noteq> type then Inl SpotifyException else Inr i
      | Some UserPlaylist \<Rightarrow> Inl SpotifyException
      | None \<Rightarrow>
          (case match_url ident of
             Some (t, i) \<Rightarrow> if t \<noteq> type then Inl SpotifyException else Inr i
           | None \<Rightarrow> if base62 (chomp ident) then Inr ident else Inl SpotifyException))"

definition get_uri :: "string \<Rightarrow> string \<Rightarrow> error + string" where
  "get_uri type ident =
     (if match_uri ident \<noteq> None then Inr ident
      else (case get_id type ident of
              Inl e \<Rightarrow> Inl e
            | Inr i \<Rightarrow> Inr (''spotify:'' @ type @ '':'' @ i)))"

text \<open>
  A client, a service without playlists, one that gives its next playlist an identifier
  the library refuses, and one where the playlist exists with five tracks.
\<close>

definition example_sp :: spotify where
  "example_sp = \<lparr>auth = ''token''\<rparr>"

definition empty_service :: service where
  "empty_service =
     \<lparr>svc_user = ''abbie'', svc_playlists = [],
      svc_ids = (\<lambda>n. ''new'' @ replicate n (CHR ''+'')), svc_created = 0,
      svc_tokens = (\<lambda>c s r. Some ''fresh''), svc_calls = [],
      lib_get_id = get_id, lib_get_uri = get_uri\<rparr>"


definition old_capsule :: playlist where
  "old_capsule =
     \<lparr>pl_id = ''capsule'', pl_name = ''My time capsule'', pl_description = [],
      pl_public = False, pl_owner = ''abbie'',
      pl_tracks = [''spotify:track:1'', ''spotify:track:2'', ''spotify:track:3'',
                   ''spotify:track:4'', ''spotify:track:5'']\<rparr>"

definition capsule_service :: service where
  "capsule_service = empty_service\<lparr>svc_playlists := [old_capsule]\<rparr>"

text \<open>An environment with a direct access token, and one with the three refresh credentials only.\<close>

definition token_env :: environ where
  "token_env = [''SPOTIFY_ACCESS_TOKEN'' \<mapsto> ''token'']"

definition refresh_env :: environ where
  "refresh_env = [''SPOTIFY_CLIENT_ID'' \<mapsto> ''id'', ''SPOTIFY_CLIENT_SECRET'' \<mapsto> ''secret'',
                  ''SPOTIFY_REFRESH_TOKEN'' \<mapsto> ''refresh'']"

section \<open>The sampler\<close>

lemma draw_Suc:
  "xs \<noteq> [] \<Longrightarrow> draw (Suc n) g xs =
     (xs ! (g 0 mod length xs) #
      draw n (\<lambda>k. g (Suc k)) (take (g 0 mod length xs) xs @ drop (Suc (g 0 mod length xs)) xs))"
  by (cases xs) (simp_all add: Let_def)

lemma remove_nth_split:
  assumes "i < length xs"
  obtains ys zs where "xs = ys @ xs ! i # zs" and "take i xs @ drop (Suc i) xs = ys @ zs"
  using assms id_take_nth_drop by blast

lemma draw_length: "n \<le> length xs \<Longrightarrow> length (draw n g xs) = n"
proof (induction n arbitrary: g xs)
  case 0
  show ?case by simp
next
  case (Suc n)
  then have ne: "xs \<noteq> []" by auto
  define i where "i = g 0 mod length xs"
  have "i < length xs" using ne by (simp add: i_def)
  then obtain ys zs where xs: "xs = ys @ xs ! i # zs"
    and rest: "take i xs @ drop (Suc i) xs = ys @ zs"
    by (rule remove_nth_split)
  have "length xs = Suc (length (ys @ zs))" by (subst xs) simp
  with Suc.prems have "n \<le> length (ys @ zs)" by simp
  then have "length (draw n (\<lambda>k. g (Suc k)) (ys @ zs)) = n" by (rule Suc.IH)
  then show ?case using ne rest by (simp add: draw_Suc i_def)
qed

lemma draw_set: "set (draw n g xs) \<subseteq> set xs"
proof (induction n arbitrary: g xs)
  case 0
  show ?case by simp
next
  case (Suc n)
  show ?case
  proof (cases "xs = []")
    case True
    then show ?thesis by simp
  next
    case ne: False
    define i where "i = g 0 mod length xs"
    have i: "i < length xs" using ne by (simp add: i_def)
    then obtain ys zs where xs: "xs = ys @ xs ! i # zs"
      and rest: "take i xs @ drop (Suc i) xs = ys @ zs"
      by (rule remove_nth_split)
    have "set (draw n (\<lambda>k. g (Suc k)) (ys @ zs)) \<subseteq> set (ys @ zs)" by (rule Suc.IH)
    moreover have "set (ys @ zs) \<subseteq> set xs" by (subst xs) auto
    ultimately have "set (draw n (\<lambda>k. g (Suc k)) (ys @ zs)) \<subseteq> set xs" by (rule subset_trans)
    moreover have "xs ! i \<in> set xs" using i by simp
    ultimately show ?thesis using ne rest by (simp add: draw_Suc i_def)
  qed
qed

text \<open>No row is drawn twice: rows with distinct labels stay distinct in the sample.\<close>

lemma draw_distinct: "distinct (map f xs) \<Longrightarrow> distinct (map f (draw n g xs))"
proof (induction n arbitrary: g xs)
  case 0
  show ?case by simp
next
  case (Suc n)
  show ?case
  proof (cases "xs = []")
    case True
    then show ?thesis by simp
  next
    case ne: False
    define i where "i = g 0 mod length xs"
    have i: "i < length xs" using ne by (simp add: i_def)
    then obtain ys zs where xs: "xs = ys @ xs ! i # zs"
      and rest: "take i xs @ drop (Suc i) xs = ys @ zs"
      by (rule remove_nth_split)
    have "distinct (map f (ys @ xs ! i # zs))" using Suc.prems xs by simp
    then have d: "distinct (map f (ys @ zs))" and nin: "f (xs ! i) \<notin> f ` set (ys @ zs)"
      by auto
    have "distinct (map f (draw n (\<lambda>k. g (Suc k)) (ys @ zs)))" using d by (rule Suc.IH)
    moreover have "f (xs ! i) \<notin> f ` set (draw n (\<lambda>k. g (Suc k)) (ys @ zs))"
      using nin draw_set[of n "\<lambda>k. g (Suc k)" "ys @ zs"] by blast
    ultimately show ?thesis using ne rest by (simp add: draw_Suc i_def)
  qed
qed

text \<open>
  Conversely the streams reach every sample without replacement: any sequence of
  distinct positions is what some stream draws.
\<close>

lemma nth_remove_nth:
  assumes "p < length xs" and "q < length xs" and "q \<noteq> p"
  shows "(take p xs @ drop (Suc p) xs) ! (if q < p then q else q - 1) = xs ! q"
proof (cases "q < p")
  case True
  then show ?thesis using assms by (simp add: nth_append)
next
  case False
  with assms have pq: "p < q" by simp
  then have "\<not> q - 1 < p" and "Suc p + (q - 1 - p) = q" by simp_all
  then show ?thesis using assms pq by (simp add: nth_append min_def)
qed

lemma draw_complete_aux:
  "length ps = n \<Longrightarrow> distinct ps \<Longrightarrow> \<forall>p\<in>set ps. p < length xs
     \<Longrightarrow> \<exists>g. draw n g xs = map ((!) xs) ps"
proof (induction n arbitrary: ps xs)
  case 0
  then show ?case by simp
next
  case (Suc n)
  then obtain p qs where pps: "ps = p # qs" by (cases ps) auto
  let ?shift = "\<lambda>q. if q < p then q else q - 1"
  let ?xs' = "take p xs @ drop (Suc p) xs"
  have p: "p < length xs" and notin: "p \<notin> set qs" and dist: "distinct qs"
    and bound: "\<forall>q\<in>set qs. q < length xs" and len: "length qs = n"
    using Suc.prems unfolding pps by auto
  have ne: "xs \<noteq> []" using p by auto
  have inj: "inj_on ?shift (set qs)"
  proof (rule inj_onI)
    fix a b
    assume "a \<in> set qs" "b \<in> set qs" "?shift a = ?shift b"
    with notin have "a \<noteq> p" "b \<noteq> p" "?shift a = ?shift b" by auto
    then show "a = b" by (cases "a < p"; cases "b < p") auto
  qed
  have d': "distinct (map ?shift qs)" using dist inj by (simp add: distinct_map)
  have len': "length ?xs' = length xs - 1" using p by simp
  have b': "\<forall>q\<in>set (map ?shift qs). q < length ?xs'"
  proof
    fix q' assume "q' \<in> set (map ?shift qs)"
    then obtain q where q: "q \<in> set qs" and q': "q' = ?shift q" by auto
    from q bound notin have "q < length xs" "q \<noteq> p" by auto
    with p q' show "q' < length ?xs'" unfolding len' by (auto split: if_splits)
  qed
  have l': "length (map ?shift qs) = n" using len by simp
  from Suc.IH[OF l' d' b'] obtain g' where
    g': "draw n g' ?xs' = map ((!) ?xs') (map ?shift qs)"
    by blast
  have same: "map ((!) ?xs') (map ?shift qs) = map ((!) xs) qs"
  proof -
    have "\<And>q. q \<in> set qs \<Longrightarrow> ?xs' ! ?shift q = xs ! q"
      using nth_remove_nth[OF p] bound notin by blast
    then show ?thesis by simp
  qed
  let ?g = "\<lambda>k. case k of 0 \<Rightarrow> p | Suc j \<Rightarrow> g' j"
  have "draw (Suc n) ?g xs = xs ! p # draw n g' ?xs'"
    using ne p by (simp add: draw_Suc)
  also have "\<dots> = map ((!) xs) ps" using g' same pps by simp
  finally show ?case by blast
qed

lemma draw_complete:
  "distinct ps \<Longrightarrow> \<forall>p\<in>set ps. p < length xs
     \<Longrightarrow> \<exists>g. draw (length ps) g xs = map ((!) xs) ps"
  by (rule draw_complete_aux) simp_all

lemma sample_enough: "n \<le> length df \<Longrightarrow> sample n df g = Inr (draw n g df, \<lambda>k. g (n + k))"
  by (simp add: sample_def)

section \<open>The track selector\<close>

lemma length_df_mask_read_csv: "length (df_mask P (read_csv rows)) = length (filter P rows)"
proof -
  have "map snd (df_mask P (read_csv rows)) = filter P (map snd (read_csv rows))"
    by (simp add: df_mask_def filter_map comp_def case_prod_unfold)
  also have "\<dots> = filter P rows" by (simp add: read_csv_def)
  finally have "length (map snd (df_mask P (read_csv rows))) = length (filter P rows)" by simp
  then show ?thesis by simp
qed

lemma set_df_mask_read_csv:
  "set (df_mask P (read_csv rows)) = {(i, r). i < length rows \<and> r = rows ! i \<and> P r}"
  by (auto simp: df_mask_def read_csv_def in_set_enumerate_eq)

lemma distinct_df_mask_read_csv: "distinct (map fst (df_mask P (read_csv rows)))"
  by (simp add: df_mask_def read_csv_def distinct_map_filter)

lemma selector_result:
  assumes "10 \<le> length (filter (\<lambda>r. 10 \<le> plays r) rows)"
    and "10 \<le> length (filter (\<lambda>r. 5 \<le> plays r \<and> plays r < 10) rows)"
    and "10 \<le> length (filter (\<lambda>r. plays r < 5) rows)"
  shows "filter_tracks_by_play_count rows g =
    Inr (column_uri (draw 10 g (df_mask (\<lambda>r. 10 \<le> plays r) (read_csv rows)))
       @ column_uri (draw 10 (\<lambda>k. g (10 + k)) (df_mask (\<lambda>r. 5 \<le> plays r \<and> plays r < 10) (read_csv rows)))
       @ column_uri (draw 10 (\<lambda>k. g (20 + k)) (df_mask (\<lambda>r. plays r < 5) (read_csv rows))),
       \<lambda>k. g (30 + k))"
  using assms
  by (simp add: filter_tracks_by_play_count_def Let_def sample_enough length_df_mask_read_csv
        add.assoc[symmetric])

lemma sampled_stratum:
  assumes "10 \<le> length (filter P rows)"
  shows "length (draw 10 g (df_mask P (read_csv rows))) = 10"
    and "distinct (map fst (draw 10 g (df_mask P (read_csv rows))))"
    and "set (draw 10 g (df_mask P (read_csv rows)))
           \<subseteq> {(i, r). i < length rows \<and> r = rows ! i \<and> P r}"
proof -
  show "length (draw 10 g (df_mask P (read_csv rows))) = 10"
    using assms by (simp add: draw_length length_df_mask_read_csv)
  show "distinct (map fst (draw 10 g (df_mask P (read_csv rows))))"
    by (rule draw_distinct) (rule distinct_df_mask_read_csv)
  show "set (draw 10 g (df_mask P (read_csv rows)))
          \<subseteq> {(i, r). i < length rows \<and> r = rows ! i \<and> P r}"
    using draw_set[of 10 g "df_mask P (read_csv rows)"] by (simp only: set_df_mask_read_csv)
qed

lemma sampled_uri:
  assumes "10 \<le> length (filter P rows)" and "k < 10"
  shows "\<exists>r\<in>set rows. P r \<and> column_uri (draw 10 g (df_mask P (read_csv rows))) ! k = uri r"
proof -
  let ?s = "draw 10 g (df_mask P (read_csv rows))"
  have len: "length ?s = 10"
    and sub: "set ?s \<subseteq> {(i, r). i < length rows \<and> r = rows ! i \<and> P r}"
    using sampled_stratum[OF assms(1)] by blast+
  have "?s ! k \<in> set ?s" using len assms(2) by simp
  with sub obtain i where i: "i < length rows" "snd (?s ! k) = rows ! i" "P (rows ! i)"
    by (auto simp: case_prod_unfold)
  have "column_uri ?s ! k = uri (snd (?s ! k))"
    using len assms(2) by (simp add: column_uri_def case_prod_unfold)
  with i have "rows ! i \<in> set rows" "P (rows ! i)" "column_uri ?s ! k = uri (rows ! i)"
    by simp_all
  then show ?thesis by blast
qed

lemma uris_of_rows:
  assumes "set xs \<subseteq> {(i, r). i < length rows \<and> r = rows ! i \<and> P r}"
  shows "set (map (\<lambda>(i, r). uri r) xs) \<subseteq> uri ` set rows"
proof
  fix u
  assume "u \<in> set (map (\<lambda>(i, r). uri r) xs)"
  then obtain i r where ir: "(i, r) \<in> set xs" and u: "u = uri r" by auto
  from ir assms have "i < length rows" "r = rows ! i" by auto
  then have "r \<in> set rows" by simp
  with u show "u \<in> uri ` set rows" by blast
qed

text \<open>
  C1. When each of the three strata (ten plays or more, five to nine, fewer than five)
  has at least ten rows, the selector returns 30 strings: the \<open>uri\<close> fields of three
  samples of ten rows each, the rows of a sample having distinct labels (no row is drawn
  twice) and all lying in the sample's stratum.
\<close>

theorem selector_returns_30:
  assumes "10 \<le> length (filter (\<lambda>r. 10 \<le> plays r) rows)"
    and "10 \<le> length (filter (\<lambda>r. 5 \<le> plays r \<and> plays r < 10) rows)"
    and "10 \<le> length (filter (\<lambda>r. plays r < 5) rows)"
  shows "\<exists>high medium low g'.
      filter_tracks_by_play_count rows g =
        Inr (map (\<lambda>(i, r). uri r) high @ map (\<lambda>(i, r). uri r) medium
               @ map (\<lambda>(i, r). uri r) low, g')
    \<and> length (map (\<lambda>(i, r). uri r) high @ map (\<lambda>(i, r). uri r) medium
               @ map (\<lambda>(i, r). uri r) low) = 30
    \<and> length high = 10 \<and> distinct (map fst high)
    \<and> set high \<subseteq> {(i, r). i < length rows \<and> r = rows ! i \<and> 10 \<le> plays r}
    \<and> length medium = 10 \<and> distinct (map fst medium)
    \<and> set medium \<subseteq> {(i, r). i < length rows \<and> r = rows ! i \<and> 5 \<le> plays r \<and> plays r < 10}
    \<and> length low = 10 \<and> distinct (map fst low)
    \<and> set low \<subseteq> {(i, r). i < length rows \<and> r = rows ! i \<and> plays r < 5}"
proof -
  let ?h = "draw 10 g (df_mask (\<lambda>r. 10 \<le> plays r) (read_csv rows))"
  let ?m = "draw 10 (\<lambda>k. g (10 + k)) (df_mask (\<lambda>r. 5 \<le> plays r \<and> plays r < 10) (read_csv rows))"
  let ?l = "draw 10 (\<lambda>k. g (20 + k)) (df_mask (\<lambda>r. plays r < 5) (read_csv rows))"
  have "filter_tracks_by_play_count rows g =
      Inr (column_uri ?h @ column_uri ?m @ column_uri ?l, \<lambda>k. g (30 + k))"
    using assms by (rule selector_result)
  then have res: "filter_tracks_by_play_count rows g =
      Inr (map (\<lambda>(i, r). uri r) ?h @ map (\<lambda>(i, r). uri r) ?m @ map (\<lambda>(i, r). uri r) ?l,
           \<lambda>k. g (30 + k))"
    by (simp only: column_uri_def)
  have h: "length ?h = 10" "distinct (map fst ?h)"
      "set ?h \<subseteq> {(i, r). i < length rows \<and> r = rows ! i \<and> 10 \<le> plays r}"
    using sampled_stratum[OF assms(1)] by blast+
  have m: "length ?m = 10" "distinct (map fst ?m)"
      "set ?m \<subseteq> {(i, r). i < length rows \<and> r = rows ! i \<and> 5 \<le> plays r \<and> plays r < 10}"
    using sampled_stratum[OF assms(2)] by blast+
  have l: "length ?l = 10" "distinct (map fst ?l)"
      "set ?l \<subseteq> {(i, r). i < length rows \<and> r = rows ! i \<and> plays r < 5}"
    using sampled_stratum[OF assms(3)] by blast+
  have len: "length (map (\<lambda>(i, r). uri r) ?h @ map (\<lambda>(i, r). uri r) ?m
                      @ map (\<lambda>(i, r). uri r) ?l) = 30"
    using h(1) m(1) l(1) by simp
  show ?thesis
    using res len h m l by blast
qed

theorem selector_returns_30_witness:
  "\<exists>us g'. filter_tracks_by_play_count example_rows (\<lambda>k. 0) = Inr (us, g')
     \<and> length us = 30 \<and> set us \<subseteq> uri ` set example_rows"
proof -
  have h: "10 \<le> length (filter (\<lambda>r. 10 \<le> plays r) example_rows)"
    by (simp add: example_rows_def)
  have m: "10 \<le> length (filter (\<lambda>r. 5 \<le> plays r \<and> plays r < 10) example_rows)"
    by (simp add: example_rows_def)
  have l: "10 \<le> length (filter (\<lambda>r. plays r < 5) example_rows)"
    by (simp add: example_rows_def)
  from selector_returns_30[OF h m l, of "\<lambda>k. 0"] obtain high medium low g' where
    res: "filter_tracks_by_play_count example_rows (\<lambda>k. 0) =
        Inr (map (\<lambda>(i, r). uri r) high @ map (\<lambda>(i, r). uri r) medium
               @ map (\<lambda>(i, r). uri r) low, g')"
    and len: "length (map (\<lambda>(i, r). uri r) high @ map (\<lambda>(i, r). uri r) medium
               @ map (\<lambda>(i, r). uri r) low) = 30"
    and sh: "set high \<subseteq> {(i, r). i < length example_rows \<and> r = example_rows ! i
                 \<and> 10 \<le> plays r}"
    and sm: "set medium \<subseteq> {(i, r). i < length example_rows \<and> r = example_rows ! i
                 \<and> 5 \<le> plays r \<and> plays r < 10}"
    and sl: "set low \<subseteq> {(i, r). i < length example_rows \<and> r = example_rows ! i
                 \<and> plays r < 5}"
    by blast
  have "set (map (\<lambda>(i, r). uri r) high @ map (\<lambda>(i, r). uri r) medium
               @ map (\<lambda>(i, r). uri r) low) \<subseteq> uri ` set example_rows"
    using uris_of_rows[OF sh] uris_of_rows[OF sm] uris_of_rows[OF sl] by simp
  with res len show ?thesis by blast
qed

lemma selector_too_few:
  assumes "length (filter (\<lambda>r. 10 \<le> plays r) rows) < 10
         \<or> length (filter (\<lambda>r. 5 \<le> plays r \<and> plays r < 10) rows) < 10
         \<or> length (filter (\<lambda>r. plays r < 5) rows) < 10"
  shows "filter_tracks_by_play_count rows g = Inl ValueError"
  using assms
  by (auto simp: filter_tracks_by_play_count_def Let_def sample_def length_df_mask_read_csv)

text \<open>
  C2. When some stratum has fewer than ten rows, the selector does not return: the
  sampling call raises pandas' \<^verbatim>\<open>ValueError\<close>, the failure the specification calls
  InsufficientData.
\<close>

theorem selector_insufficient_data:
  assumes "length (filter (\<lambda>r. 10 \<le> plays r) rows) < 10
         \<or> length (filter (\<lambda>r. 5 \<le> plays r \<and> plays r < 10) rows) < 10
         \<or> length (filter (\<lambda>r. plays r < 5) rows) < 10"
  shows "filter_tracks_by_play_count rows g = Inl ValueError"
  using assms by (rule selector_too_few)

theorem selector_insufficient_data_witness:
  "filter_tracks_by_play_count short_rows (\<lambda>k. 0) = Inl ValueError"
proof -
  have "length (filter (\<lambda>r. 10 \<le> plays r) short_rows) < 10"
    by (simp add: short_rows_def)
  then show ?thesis using selector_insufficient_data[of short_rows "\<lambda>k. 0"] by blast
qed

text \<open>
  C7. For a qualifying table the result is the URIs of the sample of the high stratum,
  then those of the medium stratum, then those of the low stratum, each in the order
  drawn: positions 0 to 9 hold URIs of rows with ten plays or more, positions 10 to 19
  of rows with five to nine plays, positions 20 to 29 of rows with fewer than five.
\<close>

theorem selector_stratum_order:
  assumes "10 \<le> length (filter (\<lambda>r. 10 \<le> plays r) rows)"
    and "10 \<le> length (filter (\<lambda>r. 5 \<le> plays r \<and> plays r < 10) rows)"
    and "10 \<le> length (filter (\<lambda>r. plays r < 5) rows)"
  shows "\<exists>us g'.
      filter_tracks_by_play_count rows g = Inr (us, g')
    \<and> us = column_uri (draw 10 g (df_mask (\<lambda>r. 10 \<le> plays r) (read_csv rows)))
         @ column_uri (draw 10 (\<lambda>k. g (10 + k))
                         (df_mask (\<lambda>r. 5 \<le> plays r \<and> plays r < 10) (read_csv rows)))
         @ column_uri (draw 10 (\<lambda>k. g (20 + k)) (df_mask (\<lambda>r. plays r < 5) (read_csv rows)))
    \<and> (\<forall>k. k < 10 \<longrightarrow> (\<exists>r\<in>set rows. 10 \<le> plays r \<and> us ! k = uri r))
    \<and> (\<forall>k. 10 \<le> k \<and> k < 20 \<longrightarrow>
          (\<exists>r\<in>set rows. 5 \<le> plays r \<and> plays r < 10 \<and> us ! k = uri r))
    \<and> (\<forall>k. 20 \<le> k \<and> k < 30 \<longrightarrow> (\<exists>r\<in>set rows. plays r < 5 \<and> us ! k = uri r))"
proof -
  let ?h = "draw 10 g (df_mask (\<lambda>r. 10 \<le> plays r) (read_csv rows))"
  let ?m = "draw 10 (\<lambda>k. g (10 + k)) (df_mask (\<lambda>r. 5 \<le> plays r \<and> plays r < 10) (read_csv rows))"
  let ?l = "draw 10 (\<lambda>k. g (20 + k)) (df_mask (\<lambda>r. plays r < 5) (read_csv rows))"
  let ?us = "column_uri ?h @ column_uri ?m @ column_uri ?l"
  have res: "filter_tracks_by_play_count rows g = Inr (?us, \<lambda>k. g (30 + k))"
    using assms by (rule selector_result)
  have lh: "length (column_uri ?h) = 10"
    using sampled_stratum(1)[OF assms(1)] by (simp add: column_uri_def)
  have lm: "length (column_uri ?m) = 10"
    using sampled_stratum(1)[OF assms(2)] by (simp add: column_uri_def)
  have high: "\<exists>r\<in>set rows. 10 \<le> plays r \<and> ?us ! k = uri r" if "k < 10" for k
  proof -
    have "?us ! k = column_uri ?h ! k" using that lh by (simp add: nth_append)
    then show ?thesis using sampled_uri[OF assms(1) that, of g] by simp
  qed
  have medium: "\<exists>r\<in>set rows. 5 \<le> plays r \<and> plays r < 10 \<and> ?us ! k = uri r"
    if "10 \<le> k \<and> k < 20" for k
  proof -
    from that have k: "k - 10 < 10" by arith
    from that have nk: "\<not> k < 10" by arith
    have "?us ! k = column_uri ?m ! (k - 10)" using nk k lh lm by (simp add: nth_append)
    then show ?thesis using sampled_uri[OF assms(2) k, of "\<lambda>k. g (10 + k)"] by simp
  qed
  have low: "\<exists>r\<in>set rows. plays r < 5 \<and> ?us ! k = uri r" if "20 \<le> k \<and> k < 30" for k
  proof -
    from that have k: "k - 20 < 10" by arith
    from that have nk: "\<not> k < 10" "\<not> k - 10 < 10" "k - 10 - 10 = k - 20" by arith+
    have "?us ! k = column_uri ?l ! (k - 20)" using nk lh lm by (simp add: nth_append)
    then show ?thesis using sampled_uri[OF assms(3) k, of "\<lambda>k. g (20 + k)"] by simp
  qed
  show ?thesis using res high medium low by blast
qed

theorem selector_stratum_order_witness:
  "\<exists>us g'. filter_tracks_by_play_count example_rows (\<lambda>k. k) = Inr (us, g')
     \<and> (\<exists>r\<in>set example_rows. 10 \<le> plays r \<and> us ! 0 = uri r)
     \<and> (\<exists>r\<in>set example_rows. 5 \<le> plays r \<and> plays r < 10 \<and> us ! 10 = uri r)
     \<and> (\<exists>r\<in>set example_rows. plays r < 5 \<and> us ! 29 = uri r)"
proof -
  have h: "10 \<le> length (filter (\<lambda>r. 10 \<le> plays r) example_rows)"
    by (simp add: example_rows_def)
  have m: "10 \<le> length (filter (\<lambda>r. 5 \<le> plays r \<and> plays r < 10) example_rows)"
    by (simp add: example_rows_def)
  have l: "10 \<le> length (filter (\<lambda>r. plays r < 5) example_rows)"
    by (simp add: example_rows_def)
  from selector_stratum_order[OF h m l, of "\<lambda>k. k"] obtain us g' where
    res: "filter_tracks_by_play_count example_rows (\<lambda>k. k) = Inr (us, g')"
    and hi: "\<forall>k. k < 10 \<longrightarrow> (\<exists>r\<in>set example_rows. 10 \<le> plays r \<and> us ! k = uri r)"
    and me: "\<forall>k. 10 \<le> k \<and> k < 20 \<longrightarrow>
          (\<exists>r\<in>set example_rows. 5 \<le> plays r \<and> plays r < 10 \<and> us ! k = uri r)"
    and lo: "\<forall>k. 20 \<le> k \<and> k < 30 \<longrightarrow> (\<exists>r\<in>set example_rows. plays r < 5 \<and> us ! k = uri r)"
    by blast
  have "\<exists>r\<in>set example_rows. 10 \<le> plays r \<and> us ! 0 = uri r" using hi by simp
  moreover have "\<exists>r\<in>set example_rows. 5 \<le> plays r \<and> plays r < 10 \<and> us ! 10 = uri r"
    using me by simp
  moreover have "\<exists>r\<in>set example_rows. plays r < 5 \<and> us ! 29 = uri r" using lo by simp
  ultimately show ?thesis using res by blast
qed

section \<open>Playlist operations\<close>

lemma find_on_page_find:
  "find_on_page its name = map_option pl_id (find (\<lambda>p. pl_name p = name) its)"
  by (induction its) simp_all

lemma find_append_cases:
  "find P (xs @ ys) = (case find P xs of None \<Rightarrow> find P ys | Some x \<Rightarrow> Some x)"
  by (induction xs) simp_all

lemma playlist_exists_from_result:
  "fst (playlist_exists_from sp name pg srv)
     = map_option pl_id (find (\<lambda>p. pl_name p = name) (all_items pg))"
proof (induction sp name pg srv rule: playlist_exists_from.induct)
  case (1 sp name its nxt srv)
  show ?case
  proof (cases "find (\<lambda>p. pl_name p = name) its")
    case (Some p)
    then show ?thesis by (simp add: find_on_page_find find_append_cases)
  next
    case None
    show ?thesis
    proof (cases nxt)
      case nxt: None
      then show ?thesis using None by (simp add: find_on_page_find find_append_cases)
    next
      case (Some pg)
      have "find_on_page its name = None" using None by (simp add: find_on_page_find)
      from "1.IH"[OF this Some] show ?thesis
        using None Some by (simp add: find_on_page_find find_append_cases)
    qed
  qed
qed

lemma all_items_pages_from: "all_items (pages_from ps) = ps"
proof (induction ps rule: pages_from.induct)
  case (1 ps)
  show ?case
  proof (cases "length ps \<le> 50")
    case True
    then show ?thesis by (subst pages_from.simps) simp
  next
    case False
    then have "all_items (pages_from (drop 50 ps)) = drop 50 ps" by (rule "1.IH")
    then show ?thesis using False by (subst pages_from.simps) simp
  qed
qed

lemma playlist_exists_result:
  "fst (playlist_exists sp name srv)
     = map_option pl_id (find (\<lambda>p. pl_name p = name) (svc_playlists srv))"
  by (simp add: playlist_exists_def sp_current_user_playlists_def playlist_exists_from_result
        all_items_pages_from)

text \<open>
  C5. Over any chain of pages the lookup returns the identifier of the first playlist,
  in listing order over all the pages, whose name equals the given one, and
  \<^verbatim>\<open>None\<close> when no page has one; so it does over the pages the service lists.
  Names are compared as strings, character by character.
\<close>

theorem playlist_exists_first_match:
  "fst (playlist_exists_from sp name pg srv)
     = map_option pl_id (find (\<lambda>p. pl_name p = name) (all_items pg))
   \<and> fst (playlist_exists sp name srv)
     = map_option pl_id (find (\<lambda>p. pl_name p = name) (svc_playlists srv))"
  by (simp only: playlist_exists_from_result playlist_exists_result)

lemma playlist_exists_case_sensitive:
  "fst (playlist_exists example_sp ''my time capsule'' capsule_service) = None"
  "fst (playlist_exists example_sp ''My time capsule'' capsule_service) = Some ''capsule''"
  by (simp_all add: playlist_exists_result capsule_service_def old_capsule_def)

text \<open>
  C10. Adding an empty list of URIs returns without a request: the service, its
  playlists and its request log are as before.
\<close>

theorem add_tracks_empty: "add_tracks sp playlist_id [] srv = (Inr (), srv)"
  by (simp add: add_tracks_def)

lemma tracks_of_update:
  "tracks_of pid (case update_playlist pid (\<lambda>p. p\<lparr>pl_tracks := uris\<rparr>) ps of
                    None \<Rightarrow> ps | Some ps' \<Rightarrow> ps')
     = map_option (\<lambda>old. uris) (tracks_of pid ps)"
  by (induction ps) (auto split: option.splits)




lemma replace_tracks_accepted:
  assumes "lib_get_id srv ''playlist'' pid = Inr plid" and "get_uris srv uris = Inr ftracks"
  shows "svc_calls (snd (replace_tracks sp pid uris srv))
           = svc_calls srv @ [ApiRequest (auth sp) (PlaylistReplaceItems plid ftracks)]"
    and "tracks_of plid (svc_playlists (snd (replace_tracks sp pid uris srv)))
           = map_option (\<lambda>old. ftracks) (tracks_of plid (svc_playlists srv))"
proof -
  show "svc_calls (snd (replace_tracks sp pid uris srv))
           = svc_calls srv @ [ApiRequest (auth sp) (PlaylistReplaceItems plid ftracks)]"
    using assms
    by (simp add: replace_tracks_def sp_playlist_replace_items_def api_def Let_def
          split: option.splits)
  have "svc_playlists (snd (replace_tracks sp pid uris srv))
      = (case update_playlist plid (\<lambda>p. p\<lparr>pl_tracks := ftracks\<rparr>) (svc_playlists srv) of
           None \<Rightarrow> svc_playlists srv | Some ps' \<Rightarrow> ps')"
    using assms
    by (simp add: replace_tracks_def sp_playlist_replace_items_def api_def Let_def
          split: option.splits)
  then show "tracks_of plid (svc_playlists (snd (replace_tracks sp pid uris srv)))
           = map_option (\<lambda>old. ftracks) (tracks_of plid (svc_playlists srv))"
    by (simp only: tracks_of_update)
qed

lemma get_id_capsule:
  "get_id ''playlist'' ''capsule'' = Inr ''capsule''"
  "get_id ''playlist'' ''spotify:playlist:capsule'' = Inr ''capsule''"
  by (simp_all add: get_id_def match_uri_def match_url_def chomp_def base62_def Let_def)

text \<open>
  Replacing the five tracks of an existing playlist with the empty sequence sends a
  request and empties the playlist, so the call is neither skipped nor without effect.
\<close>

theorem replace_tracks_empty_counterexample:
  "svc_calls capsule_service = []
   \<and> svc_calls (snd (replace_tracks example_sp ''capsule'' [] capsule_service))
       = [ApiRequest ''token'' (PlaylistReplaceItems ''capsule'' [])]
   \<and> tracks_of ''capsule'' (svc_playlists capsule_service)
       = Some [''spotify:track:1'', ''spotify:track:2'', ''spotify:track:3'',
               ''spotify:track:4'', ''spotify:track:5'']
   \<and> tracks_of ''capsule''
        (svc_playlists (snd (replace_tracks example_sp ''capsule'' [] capsule_service)))
       = Some []"
proof -
  have acc: "lib_get_id capsule_service ''playlist'' ''capsule'' = Inr ''capsule''"
    by (simp add: capsule_service_def empty_service_def get_id_capsule)
  have no: "get_uris capsule_service [] = Inr []" by simp
  show ?thesis
    by (simp add: replace_tracks_accepted[OF acc no])
       (simp add: capsule_service_def empty_service_def old_capsule_def example_sp_def)
qed

text \<open>
  C4, as the code has it. For every playlist identifier the client library accepts,
  replacing with an empty sequence sends one replace-items request, for the playlist
  the identifier names and carrying the empty sequence, and that playlist is left with
  no tracks. The guard against an empty list is in \<^verbatim>\<open>add_tracks\<close> only.
\<close>

theorem replace_tracks_empty:
  assumes "lib_get_id srv ''playlist'' pid = Inr plid"
  shows "svc_calls (snd (replace_tracks sp pid [] srv))
     = svc_calls srv @ [ApiRequest (auth sp) (PlaylistReplaceItems plid [])]
   \<and> tracks_of plid (svc_playlists (snd (replace_tracks sp pid [] srv)))
     = map_option (\<lambda>old. []) (tracks_of plid (svc_playlists srv))"
proof -
  have no: "get_uris srv [] = Inr []" by simp
  show ?thesis by (simp only: replace_tracks_accepted[OF assms no])
qed

theorem replace_tracks_empty_witness:
  "svc_calls (snd (replace_tracks example_sp ''spotify:playlist:capsule'' [] capsule_service))
       = [ApiRequest ''token'' (PlaylistReplaceItems ''capsule'' [])]
   \<and> tracks_of ''capsule''
        (svc_playlists (snd (replace_tracks example_sp ''spotify:playlist:capsule'' []
                               capsule_service)))
       = Some []"
proof -
  have acc: "lib_get_id capsule_service ''playlist'' ''spotify:playlist:capsule''
               = Inr ''capsule''"
    by (simp add: capsule_service_def empty_service_def get_id_capsule)
  from replace_tracks_empty[OF acc, of example_sp] show ?thesis
    by (simp add: capsule_service_def empty_service_def old_capsule_def example_sp_def)
qed

section \<open>Credentials\<close>

lemma redirect_uri_unbound: "load_global ''redirect_uri'' = Inl (NameError ''redirect_uri'')"
  by (simp add: load_global_def module_globals_def)

text \<open>
  With no direct token and the three refresh credentials set, the condition of the
  second strategy evaluates the unbound name and raises, for every environment.
\<close>

lemma refresh_strategy_raises:
  assumes "\<not> truthy (env ''SPOTIFY_ACCESS_TOKEN'')"
    and "truthy (env ''SPOTIFY_CLIENT_ID'')"
    and "truthy (env ''SPOTIFY_CLIENT_SECRET'')"
    and "truthy (env ''SPOTIFY_REFRESH_TOKEN'')"
  shows "get_spotify_client env fs srv = (Inl (NameError ''redirect_uri''), srv)"
  using assms by (simp add: get_spotify_client_def Let_def redirect_uri_unbound)

text \<open>
  C6, on the code. In the environment with the client identifier, the client secret and
  the refresh token and no direct token, the resolver raises \<^verbatim>\<open>NameError\<close> and sends no
  request to the token endpoint.
\<close>

theorem refresh_env_name_error:
  "get_spotify_client refresh_env Map.empty empty_service
     = (Inl (NameError ''redirect_uri''), empty_service)"
  by (rule refresh_strategy_raises) (simp_all add: refresh_env_def truthy_def)

text \<open>
  C8. With no direct token, the refresh credentials not all set and no token file, the
  resolver raises \<^verbatim>\<open>FileNotFoundError\<close>, the failure the specification calls
  CredentialUnavailable, and the service has received no request.
\<close>

theorem no_credentials:
  assumes "\<not> truthy (env ''SPOTIFY_ACCESS_TOKEN'')"
    and "\<not> (truthy (env ''SPOTIFY_CLIENT_ID'') \<and> truthy (env ''SPOTIFY_CLIENT_SECRET'')
            \<and> truthy (env ''SPOTIFY_REFRESH_TOKEN''))"
    and "fs TOKEN_PATH = None"
  shows "get_spotify_client env fs srv = (Inl FileNotFoundError, srv)"
proof -
  have "(if truthy (env ''SPOTIFY_CLIENT_ID'') \<and> truthy (env ''SPOTIFY_CLIENT_SECRET'')
            \<and> truthy (env ''SPOTIFY_REFRESH_TOKEN'')
         then map_sum id (\<lambda>v. v \<noteq> []) (load_global ''redirect_uri'')
         else Inr False) = Inr False"
    using assms(2) by (simp only: if_False)
  then show ?thesis
    using assms(1,3) by (simp add: get_spotify_client_def Let_def)
qed

theorem no_credentials_witness:
  "get_spotify_client [''SPOTIFY_CLIENT_ID'' \<mapsto> ''id''] Map.empty empty_service
     = (Inl FileNotFoundError, empty_service)"
  by (rule no_credentials) (simp_all add: truthy_def)

section \<open>The run\<close>

text \<open>Reading the listing and resolving the credentials leave the playlists as they are.\<close>

lemma playlist_exists_from_frame:
  "svc_playlists (snd (playlist_exists_from sp name pg srv)) = svc_playlists srv"
  "svc_ids (snd (playlist_exists_from sp name pg srv)) = svc_ids srv"
  "svc_created (snd (playlist_exists_from sp name pg srv)) = svc_created srv"
  "svc_user (snd (playlist_exists_from sp name pg srv)) = svc_user srv"
  "filter track_update (svc_calls (snd (playlist_exists_from sp name pg srv)))
     = filter track_update (svc_calls srv)"
  "lib_get_id (snd (playlist_exists_from sp name pg srv)) = lib_get_id srv"
  "lib_get_uri (snd (playlist_exists_from sp name pg srv)) = lib_get_uri srv"
  by (induction sp name pg srv rule: playlist_exists_from.induct;
      simp add: api_def split: option.splits)+

lemma playlist_exists_frame:
  "svc_playlists (snd (playlist_exists sp name srv)) = svc_playlists srv"
  "svc_ids (snd (playlist_exists sp name srv)) = svc_ids srv"
  "svc_created (snd (playlist_exists sp name srv)) = svc_created srv"
  "svc_user (snd (playlist_exists sp name srv)) = svc_user srv"
  "filter track_update (svc_calls (snd (playlist_exists sp name srv)))
     = filter track_update (svc_calls srv)"
  "lib_get_id (snd (playlist_exists sp name srv)) = lib_get_id srv"
  "lib_get_uri (snd (playlist_exists sp name srv)) = lib_get_uri srv"
  by (simp_all add: playlist_exists_def sp_current_user_playlists_def
        playlist_exists_from_frame api_def)

lemma refresh_access_token_frame:
  assumes "refresh_access_token sp_oauth refresh_token srv = (r, srv1)"
  shows "svc_playlists srv1 = svc_playlists srv \<and> svc_ids srv1 = svc_ids srv
       \<and> svc_created srv1 = svc_created srv \<and> svc_user srv1 = svc_user srv
       \<and> filter track_update (svc_calls srv1) = filter track_update (svc_calls srv)
       \<and> lib_get_id srv1 = lib_get_id srv \<and> lib_get_uri srv1 = lib_get_uri srv"
  using assms by (auto simp: refresh_access_token_def Let_def split: option.splits)

lemma get_spotify_client_frame:
  assumes "get_spotify_client env fs srv = (r, srv0)"
  shows "svc_playlists srv0 = svc_playlists srv \<and> svc_ids srv0 = svc_ids srv
       \<and> svc_created srv0 = svc_created srv \<and> svc_user srv0 = svc_user srv
       \<and> filter track_update (svc_calls srv0) = filter track_update (svc_calls srv)
       \<and> lib_get_id srv0 = lib_get_id srv \<and> lib_get_uri srv0 = lib_get_uri srv"
  using assms
  by (auto simp: get_spotify_client_def Let_def
        split: if_splits sum.splits option.splits prod.splits
        dest!: refresh_access_token_frame)

lemma create_playlist_result:
  "create_playlist sp name descr public srv =
     (svc_ids srv (svc_created srv),
      srv\<lparr>svc_calls := svc_calls srv @ [ApiRequest (auth sp) Me,
               ApiRequest (auth sp) (UserPlaylistCreate (svc_user srv) name public descr)],
          svc_playlists := \<lparr>pl_id = svc_ids srv (svc_created srv), pl_name = name,
                             pl_description = descr, pl_public = public,
                             pl_owner = svc_user srv, pl_tracks = []\<rparr> # svc_playlists srv,
          svc_created := Suc (svc_created srv)\<rparr>)"
  by (simp add: create_playlist_def sp_me_def sp_user_playlist_create_def api_def Let_def)

lemma main_after_client:
  assumes "get_spotify_client env fs srv = (Inr sp, srv0)"
  shows "main env fs rows g srv =
     (let found = fst (playlist_exists sp playlist_name srv0);
          srv1 = snd (playlist_exists sp playlist_name srv0);
          target = (if truthy found then (str found, srv1)
                    else create_playlist sp playlist_name description False srv1)
      in (case filter_tracks_by_play_count rows g of
            Inl e \<Rightarrow> (Inl e, snd target)
          | Inr (track_uris, g') \<Rightarrow> replace_tracks sp (fst target) track_uris (snd target)))"
  using assms by (simp add: main_def case_prod_unfold Let_def)

lemma main_abort:
  assumes client: "get_spotify_client env fs srv = (Inr sp, srv0)"
    and few: "length (filter (\<lambda>r. 10 \<le> plays r) rows) < 10
         \<or> length (filter (\<lambda>r. 5 \<le> plays r \<and> plays r < 10) rows) < 10
         \<or> length (filter (\<lambda>r. plays r < 5) rows) < 10"
  shows "fst (main env fs rows g srv) = Inl ValueError"
    and "filter track_update (svc_calls (snd (main env fs rows g srv)))
           = filter track_update (svc_calls srv)"
    and "svc_playlists (snd (main env fs rows g srv)) =
           (if truthy (map_option pl_id
                  (find (\<lambda>p. pl_name p = ''My time capsule'') (svc_playlists srv)))
            then svc_playlists srv
            else \<lparr>pl_id = svc_ids srv (svc_created srv), pl_name = ''My time capsule'',
                   pl_description = description, pl_public = False,
                   pl_owner = svc_user srv, pl_tracks = []\<rparr> # svc_playlists srv)"
proof -
  note fr = get_spotify_client_frame[OF client]
  note sel = selector_too_few[OF few, of g]
  show "fst (main env fs rows g srv) = Inl ValueError"
    by (simp add: main_after_client[OF client] sel Let_def)
  show "filter track_update (svc_calls (snd (main env fs rows g srv)))
           = filter track_update (svc_calls srv)"
    by (simp add: main_after_client[OF client] sel Let_def create_playlist_result
          playlist_exists_frame fr)
  show "svc_playlists (snd (main env fs rows g srv)) =
           (if truthy (map_option pl_id
                  (find (\<lambda>p. pl_name p = ''My time capsule'') (svc_playlists srv)))
            then svc_playlists srv
            else \<lparr>pl_id = svc_ids srv (svc_created srv), pl_name = ''My time capsule'',
                   pl_description = description, pl_public = False,
                   pl_owner = svc_user srv, pl_tracks = []\<rparr> # svc_playlists srv)"
    by (simp add: main_after_client[OF client] sel Let_def create_playlist_result
          playlist_exists_frame playlist_exists_result fr playlist_name_def)
qed

lemma token_env_client:
  "get_spotify_client token_env fs srv = (Inr \<lparr>auth = ''token''\<rparr>, srv)"
  by (simp add: get_spotify_client_def token_env_def truthy_def str_def Let_def)

text \<open>
  A run on a table with only eight rows in the high stratum, for a user without
  playlists, aborts with the sampling failure and leaves a newly created playlist behind.
\<close>

theorem main_insufficient_data_counterexample:
  "fst (main token_env Map.empty short_rows (\<lambda>k. 0) empty_service) = Inl ValueError
   \<and> svc_playlists empty_service = []
   \<and> svc_playlists (snd (main token_env Map.empty short_rows (\<lambda>k. 0) empty_service))
       = [\<lparr>pl_id = ''new'', pl_name = ''My time capsule'', pl_description = description,
           pl_public = False, pl_owner = ''abbie'', pl_tracks = []\<rparr>]"
proof -
  have few: "length (filter (\<lambda>r. 10 \<le> plays r) short_rows) < 10
         \<or> length (filter (\<lambda>r. 5 \<le> plays r \<and> plays r < 10) short_rows) < 10
         \<or> length (filter (\<lambda>r. plays r < 5) short_rows) < 10"
    by (simp add: short_rows_def)
  note ab = main_abort[where env = token_env and fs = Map.empty and srv = empty_service
      and rows = short_rows and g = "\<lambda>k. 0", OF token_env_client few]
  have "svc_playlists empty_service = []" by (simp add: empty_service_def)
  moreover have "svc_playlists (snd (main token_env Map.empty short_rows (\<lambda>k. 0) empty_service))
       = [\<lparr>pl_id = ''new'', pl_name = ''My time capsule'', pl_description = description,
           pl_public = False, pl_owner = ''abbie'', pl_tracks = []\<rparr>]"
    by (simp add: ab(3)) (simp add: empty_service_def truthy_def)
  ultimately show ?thesis using ab(1) by simp
qed

text \<open>
  C3, as the code has it. A run whose table has a stratum of fewer than ten rows aborts
  with the sampling failure before any track list is touched: it sends no replace or
  add request, and the playlists the user had are as before, tracks included. The
  lookup and the creation come first, though: when the lookup finds no playlist named
  "My time capsule" the run has created an empty private one by then.
\<close>

theorem main_insufficient_data:
  assumes "get_spotify_client env fs srv = (Inr sp, srv0)"
    and "length (filter (\<lambda>r. 10 \<le> plays r) rows) < 10
         \<or> length (filter (\<lambda>r. 5 \<le> plays r \<and> plays r < 10) rows) < 10
         \<or> length (filter (\<lambda>r. plays r < 5) rows) < 10"
  shows "fst (main env fs rows g srv) = Inl ValueError
    \<and> filter track_update (svc_calls (snd (main env fs rows g srv)))
           = filter track_update (svc_calls srv)
    \<and> svc_playlists (snd (main env fs rows g srv)) =
           (if truthy (map_option pl_id
                  (find (\<lambda>p. pl_name p = ''My time capsule'') (svc_playlists srv)))
            then svc_playlists srv
            else \<lparr>pl_id = svc_ids srv (svc_created srv), pl_name = ''My time capsule'',
                   pl_description = description, pl_public = False,
                   pl_owner = svc_user srv, pl_tracks = []\<rparr> # svc_playlists srv)"
  using main_abort[OF assms] by blast

theorem main_insufficient_data_witness:
  "fst (main token_env Map.empty short_rows (\<lambda>k. 0) capsule_service) = Inl ValueError
   \<and> svc_playlists (snd (main token_env Map.empty short_rows (\<lambda>k. 0) capsule_service))
       = [old_capsule]
   \<and> filter track_update
       (svc_calls (snd (main token_env Map.empty short_rows (\<lambda>k. 0) capsule_service))) = []"
proof -
  have client: "get_spotify_client token_env Map.empty capsule_service
                  = (Inr \<lparr>auth = ''token''\<rparr>, capsule_service)"
    by (rule token_env_client)
  have few: "length (filter (\<lambda>r. 10 \<le> plays r) short_rows) < 10
         \<or> length (filter (\<lambda>r. 5 \<le> plays r \<and> plays r < 10) short_rows) < 10
         \<or> length (filter (\<lambda>r. plays r < 5) short_rows) < 10"
    by (simp add: short_rows_def)
  from main_insufficient_data[where g = "\<lambda>k. 0", OF client few] show ?thesis
    by (simp add: capsule_service_def empty_service_def old_capsule_def truthy_def)
qed








end
